theory Spec2Isabelle
  imports Main
begin

section \<open>The mapped memory buffer of smmap (buf.py)\<close>

text \<open>
  \<^verbatim>\<open>MappedMemoryBuffer\<close> has one slot, \<^verbatim>\<open>_c\<close>, which is either \<^verbatim>\<open>None\<close> or a
  reference to a cursor object. The cursor is a shared, mutable object: the buffer's
  methods move its window, and the caller keeps his own reference to it. The model
  therefore has a store of cursor objects (a function from references to cursor states);
  the slot holds a reference, and every method takes the store and the buffer and
  returns them updated.

  Python 2 integers are unbounded: \<^typ>\<open>int\<close>. The bytes of a window are a Python 2
  \<^verbatim>\<open>str\<close>: \<^typ>\<open>string\<close>.
\<close>

subsection \<open>Python sequence operations\<close>

datatype py_error = AttributeError | AssertionError | IndexError | ValueError

text \<open>
  \<^verbatim>\<open>xs[lo:hi]\<close>: a negative bound counts from the end, then each bound is clamped to
  \<open>[0, len]\<close>; the result is empty when the bounds cross.
\<close>

definition py_slice :: "'a list \<Rightarrow> int \<Rightarrow> int \<Rightarrow> 'a list" where
  "py_slice xs lo hi =
     (let n = int (length xs);
          lo1 = (if lo < 0 then max 0 (lo + n) else min lo n);
          hi1 = (if hi < 0 then max 0 (hi + n) else min hi n)
      in take (nat (hi1 - lo1)) (drop (nat lo1) xs))"

text \<open>
  \<^verbatim>\<open>xs[k]\<close>: a negative index counts from the end; an index outside the sequence
  raises \<^verbatim>\<open>IndexError\<close>.
\<close>

definition py_index :: "'a list \<Rightarrow> int \<Rightarrow> py_error + 'a" where
  "py_index xs k =
     (let n = int (length xs); k1 = (if k < 0 then k + n else k)
      in if 0 \<le> k1 \<and> k1 < n then Inr (xs ! nat k1) else Inl IndexError)"

subsection \<open>The cursor interface\<close>

text \<open>
  \<^verbatim>\<open>MemoryCursor\<close> is imported from \<^verbatim>\<open>mman\<close>, which is not part of the sources at
  hand. The buffer is therefore modelled over any cursor: the methods of the cursor class
  that buf.py calls are a parameter, a record of functions over the cursor's state
  \<^typ>\<open>'c\<close>. A method that mutates the cursor returns its new state. \<^verbatim>\<open>use_region\<close>
  returns a cursor on which buf.py calls \<^verbatim>\<open>is_valid\<close>; it is taken to return the
  cursor it was called on.
\<close>

record 'c cursor_ops =
  is_valid :: "'c \<Rightarrow> bool"
  is_associated :: "'c \<Rightarrow> bool"
  includes_ofs :: "'c \<Rightarrow> int \<Rightarrow> bool"
  ofs_begin :: "'c \<Rightarrow> int"
  ofs_end :: "'c \<Rightarrow> int"
  buffer :: "'c \<Rightarrow> string"
  use_region :: "'c \<Rightarrow> int \<Rightarrow> int \<Rightarrow> int \<Rightarrow> 'c"
  unuse_region :: "'c \<Rightarrow> 'c"

subsection \<open>The buffer\<close>

type_synonym ref = nat

type_synonym 'c heap = "ref \<Rightarrow> 'c"

record MappedMemoryBuffer =
  buf_c :: "ref option"

type_synonym 'c state = "'c heap \<times> MappedMemoryBuffer"

text \<open>
  \<^verbatim>\<open>begin_access\<close>. The test \<^verbatim>\<open>if cursor:\<close> is the truth value of the argument; a
  cursor object is taken to be true (the class defines neither \<^verbatim>\<open>__nonzero__\<close> nor
  \<^verbatim>\<open>__len__\<close>), so the test is \<open>cur \<noteq> None\<close>, where \<open>cur\<close> is the parameter
  \<^verbatim>\<open>cursor\<close>. The method has no \<^verbatim>\<open>raise\<close> and no \<^verbatim>\<open>assert\<close>: it returns a truth
  value. The default values of the parameters (\<^verbatim>\<open>offset = 0\<close>, \<^verbatim>\<open>size = sys.maxint\<close>,
  \<^verbatim>\<open>flags = 0\<close>) are the caller's to fill in: the model takes all four arguments.
\<close>

definition begin_access ::
  "'c cursor_ops \<Rightarrow> 'c state \<Rightarrow> ref option \<Rightarrow> int \<Rightarrow> int \<Rightarrow> int \<Rightarrow> 'c state \<times> bool" where
  "begin_access ops s cur offset sz flags =
     (let h = fst s;
          self = (if cur \<noteq> None then (snd s)\<lparr>buf_c := cur\<rparr> else snd s)
      in case buf_c self of
           None \<Rightarrow> ((h, self), False)
         | Some r \<Rightarrow>
             if is_associated ops (h r)
             then (let c1 = use_region ops (h r) offset sz flags
                   in ((h(r := c1), self), is_valid ops c1))
             else ((h, self), False))"

text \<open>\<^verbatim>\<open>end_access\<close>, and \<^verbatim>\<open>__del__\<close>, which calls it.\<close>

definition end_access :: "'c cursor_ops \<Rightarrow> 'c state \<Rightarrow> 'c state" where
  "end_access ops s =
     (case buf_c (snd s) of
        None \<Rightarrow> s
      | Some r \<Rightarrow> ((fst s)(r := unuse_region ops (fst s r)), snd s))"

definition del :: "'c cursor_ops \<Rightarrow> 'c state \<Rightarrow> 'c state" where
  "del ops s = end_access ops s"

text \<open>\<^verbatim>\<open>cursor()\<close>.\<close>

definition cursor :: "'c state \<Rightarrow> ref option" where
  "cursor s = buf_c (snd s)"

text \<open>
  \<^verbatim>\<open>__init__\<close> sets the slot first and then binds. When it raises, the instance exists
  with its slot set (\<^verbatim>\<open>__del__\<close> will run on it): the model returns the state together
  with the error.
\<close>

definition init ::
  "'c cursor_ops \<Rightarrow> 'c heap \<Rightarrow> ref option \<Rightarrow> int \<Rightarrow> int \<Rightarrow> int \<Rightarrow> 'c state \<times> (py_error + unit)" where
  "init ops h cur offset sz flags =
     (let s = (h, \<lparr>buf_c = cur\<rparr>)
      in if cur \<noteq> None
         then (let (s1, ok) = begin_access ops s cur offset sz flags
               in if \<not> ok then (s1, Inl ValueError) else (s1, Inr ()))
         else (s, Inr ()))"

text \<open>
  \<^verbatim>\<open>__getitem__\<close>. With no cursor, \<^verbatim>\<open>c.is_valid()\<close> is an attribute access on
  \<^verbatim>\<open>None\<close>: \<^verbatim>\<open>AttributeError\<close>. The relocation, when there is one, has happened by the
  time the index is taken, so the store is updated also when the index raises.
\<close>

definition getitem :: "'c cursor_ops \<Rightarrow> 'c state \<Rightarrow> int \<Rightarrow> 'c state \<times> (py_error + char)" where
  "getitem ops s i =
     (case buf_c (snd s) of
        None \<Rightarrow> (s, Inl AttributeError)
      | Some r \<Rightarrow>
          let c = fst s r
          in if \<not> is_valid ops c then (s, Inl AssertionError)
             else (let c1 = (if \<not> includes_ofs ops c i then use_region ops c i 1 0 else c)
                   in (((fst s)(r := c1), snd s),
                       py_index (buffer ops c1) (i - ofs_begin ops c1))))"

text \<open>
  The slow path of \<^verbatim>\<open>__getslice__\<close>: \<^verbatim>\<open>while l: ...\<close>. Nothing in the loop bounds the
  number of iterations, so the loop is a partial function: \<open>None\<close> is a loop that does
  not return.
\<close>

partial_function (option) getslice_loop ::
  "'c cursor_ops \<Rightarrow> 'c \<Rightarrow> int \<Rightarrow> int \<Rightarrow> string \<Rightarrow> ('c \<times> string) option" where
  "getslice_loop ops c ofs l md =
     (if l \<noteq> 0
      then (let c1 = use_region ops c ofs l 0;
                d = py_slice (buffer ops c1) 0 l
            in getslice_loop ops c1 (ofs + int (length d)) (l - int (length d)) (md @ d))
      else Some (c, md))"

definition getslice ::
  "'c cursor_ops \<Rightarrow> 'c state \<Rightarrow> int \<Rightarrow> int \<Rightarrow> ('c state \<times> (py_error + string)) option" where
  "getslice ops s i j =
     (case buf_c (snd s) of
        None \<Rightarrow> Some (s, Inl AttributeError)
      | Some r \<Rightarrow>
          let c = fst s r
          in if \<not> is_valid ops c then Some (s, Inl AssertionError)
             else if ofs_begin ops c \<le> i \<and> j < ofs_end ops c
             then (let b = ofs_begin ops c
                   in Some (s, Inr (py_slice (buffer ops c) (i - b) (j - b))))
             else (case getslice_loop ops c i (j - i) [] of
                     None \<Rightarrow> None
                   | Some (c1, md) \<Rightarrow> Some (((fst s)(r := c1), snd s), Inr md)))"

subsection \<open>The cursor's contract\<close>

text \<open>
  What the reads need from a cursor over a resource \<open>res\<close>, for the cursor states \<open>I\<close>
  that the cursor can be in:
  \<^item> relocating and releasing keep the cursor in \<open>I\<close>;
  \<^item> the window \<open>[ofs_begin, ofs_end)\<close> lies inside the resource, \<^verbatim>\<open>buffer()\<close> is exactly
    the bytes of the window, and \<^verbatim>\<open>includes_ofs\<close> is membership in the window;
  \<^item> a relocation to an offset inside the resource, for a positive length, gives a
    valid window that starts at that offset and holds at least one byte.
  Nothing is required of a relocation to an offset outside the resource.
\<close>

definition cursor_contract :: "'c cursor_ops \<Rightarrow> string \<Rightarrow> ('c \<Rightarrow> bool) \<Rightarrow> bool" where
  "cursor_contract ops res I \<longleftrightarrow>
     (\<forall>c ofs l fl. I c \<longrightarrow> I (use_region ops c ofs l fl)) \<and>
     (\<forall>c. I c \<longrightarrow> I (unuse_region ops c)) \<and>
     (\<forall>c. I c \<longrightarrow>
        0 \<le> ofs_begin ops c \<and> ofs_begin ops c \<le> ofs_end ops c \<and>
        ofs_end ops c \<le> int (length res) \<and>
        buffer ops c = py_slice res (ofs_begin ops c) (ofs_end ops c) \<and>
        (\<forall>k. includes_ofs ops c k = (ofs_begin ops c \<le> k \<and> k < ofs_end ops c))) \<and>
     (\<forall>c ofs l. I c \<and> 0 \<le> ofs \<and> ofs < int (length res) \<and> 0 < l \<longrightarrow>
        is_valid ops (use_region ops c ofs l 0) \<and>
        ofs_begin ops (use_region ops c ofs l 0) = ofs \<and>
        ofs < ofs_end ops (use_region ops c ofs l 0))"

subsection \<open>A cursor with a window of fixed size\<close>

text \<open>
  Modelled from the spec: the cursor class \<^verbatim>\<open>MemoryCursor\<close> of the memory manager
  (\<^verbatim>\<open>mman\<close>), which the sources at hand do not contain. The cursor is either
  unassociated or associated with a resource; it has a window \<open>(begin, end)\<close> or none.
  A relocation asks for \<open>l\<close> bytes at \<open>ofs\<close>: the window starts at \<open>ofs\<close> and is cut to
  the manager's window size and to the end of the resource; a request that starts
  outside the resource, or asks for no bytes, leaves the cursor without a window.
  A cursor without a window is not valid and exposes no bytes.
\<close>

record MemoryCursor =
  rsrc :: "string option"
  window_size :: nat
  window :: "(int \<times> int) option"

definition mc_is_valid :: "MemoryCursor \<Rightarrow> bool" where
  "mc_is_valid c = (window c \<noteq> None)"

definition mc_is_associated :: "MemoryCursor \<Rightarrow> bool" where
  "mc_is_associated c = (rsrc c \<noteq> None)"

definition mc_ofs_begin :: "MemoryCursor \<Rightarrow> int" where
  "mc_ofs_begin c = (case window c of None \<Rightarrow> 0 | Some (b, e) \<Rightarrow> b)"

definition mc_ofs_end :: "MemoryCursor \<Rightarrow> int" where
  "mc_ofs_end c = (case window c of None \<Rightarrow> 0 | Some (b, e) \<Rightarrow> e)"

definition mc_includes_ofs :: "MemoryCursor \<Rightarrow> int \<Rightarrow> bool" where
  "mc_includes_ofs c k = (case window c of None \<Rightarrow> False | Some (b, e) \<Rightarrow> b \<le> k \<and> k < e)"

definition mc_buffer :: "MemoryCursor \<Rightarrow> string" where
  "mc_buffer c =
     (case rsrc c of
        None \<Rightarrow> []
      | Some res \<Rightarrow> (case window c of None \<Rightarrow> [] | Some (b, e) \<Rightarrow> py_slice res b e))"

definition mc_use_region :: "MemoryCursor \<Rightarrow> int \<Rightarrow> int \<Rightarrow> int \<Rightarrow> MemoryCursor" where
  "mc_use_region c ofs l flags =
     (case rsrc c of
        None \<Rightarrow> c
      | Some res \<Rightarrow>
          if 0 \<le> ofs \<and> ofs < int (length res) \<and> 0 < l
          then c\<lparr>window :=
                   Some (ofs, min (int (length res)) (ofs + min l (int (window_size c))))\<rparr>
          else c\<lparr>window := None\<rparr>)"

definition mc_unuse_region :: "MemoryCursor \<Rightarrow> MemoryCursor" where
  "mc_unuse_region c = c\<lparr>window := None\<rparr>"

definition memory_cursor :: "MemoryCursor cursor_ops" where
  "memory_cursor =
     \<lparr>is_valid = mc_is_valid, is_associated = mc_is_associated,
      includes_ofs = mc_includes_ofs, ofs_begin = mc_ofs_begin, ofs_end = mc_ofs_end,
      buffer = mc_buffer, use_region = mc_use_region, unuse_region = mc_unuse_region\<rparr>"

text \<open>The states of a cursor on \<open>res\<close> with a window size of at least one byte.\<close>

definition mc_inv :: "string \<Rightarrow> MemoryCursor \<Rightarrow> bool" where
  "mc_inv res c \<longleftrightarrow>
     rsrc c = Some res \<and> 0 < window_size c \<and>
     (case window c of
        None \<Rightarrow> True
      | Some (b, e) \<Rightarrow> 0 \<le> b \<and> b \<le> e \<and> e \<le> int (length res))"

subsection \<open>Concrete stores\<close>

text \<open>
  A resource of six bytes behind a manager with windows of four bytes, and three cursor
  states on it: with the window \<open>[0, 4)\<close>, released, and not associated. \<open>heap_of c\<close>
  is the store in which every reference holds the cursor state \<open>c\<close>.
\<close>

definition file6 :: string where
  "file6 = ''abcdef''"

definition cur_bound :: MemoryCursor where
  "cur_bound = \<lparr>rsrc = Some file6, window_size = 4, window = Some (0, 4)\<rparr>"

definition cur_released :: MemoryCursor where
  "cur_released = \<lparr>rsrc = Some file6, window_size = 4, window = None\<rparr>"

definition cur_unassociated :: MemoryCursor where
  "cur_unassociated = \<lparr>rsrc = None, window_size = 4, window = None\<rparr>"

definition heap_of :: "'c \<Rightarrow> 'c heap" where
  "heap_of c = (\<lambda>r. c)"

section \<open>Facts about the sequence operations\<close>

lemma py_slice_same: "py_slice xs k k = []"
  by (simp add: py_slice_def Let_def)

lemma length_py_slice_prefix: "0 \<le> l \<Longrightarrow> int (length (py_slice xs 0 l)) \<le> l"
  by (simp add: py_slice_def Let_def)

lemma py_slice_inner:
  "0 \<le> lo \<Longrightarrow> lo \<le> hi \<Longrightarrow> hi \<le> int (length xs) \<Longrightarrow>
     py_slice xs lo hi = take (nat (hi - lo)) (drop (nat lo) xs)"
  by (simp add: py_slice_def Let_def min_def)

lemma length_py_slice_inner:
  "0 \<le> lo \<Longrightarrow> lo \<le> hi \<Longrightarrow> hi \<le> int (length xs) \<Longrightarrow>
     int (length (py_slice xs lo hi)) = hi - lo"
  by (simp add: py_slice_inner)

lemma py_slice_append:
  assumes "0 \<le> i" "i \<le> k" "k \<le> j" "j \<le> int (length xs)"
  shows "py_slice xs i k @ py_slice xs k j = py_slice xs i j"
proof -
  have "take (nat (k - i)) (drop (nat i) xs) @ take (nat (j - k)) (drop (nat k) xs)
        = take (nat (j - i)) (drop (nat i) xs)"
  proof -
    have k: "nat k = nat i + nat (k - i)" using assms by simp
    have j: "nat (j - i) = nat (k - i) + nat (j - k)" using assms by simp
    show ?thesis unfolding j take_add k by (simp add: add.commute)
  qed
  with assms show ?thesis by (simp add: py_slice_inner)
qed

lemma py_slice_py_slice:
  assumes "0 \<le> b" "b \<le> i" "i \<le> j" "j \<le> e" "e \<le> int (length xs)"
  shows "py_slice (py_slice xs b e) (i - b) (j - b) = py_slice xs i j"
proof -
  have len: "int (length (py_slice xs b e)) = e - b"
    using assms by (simp add: length_py_slice_inner)
  have "py_slice (py_slice xs b e) (i - b) (j - b)
        = take (nat (j - i)) (drop (nat (i - b)) (py_slice xs b e))"
    using assms len by (simp add: py_slice_inner)
  also have "\<dots> = take (nat (j - i)) (drop (nat (i - b)) (take (nat (e - b)) (drop (nat b) xs)))"
    using assms by (simp add: py_slice_inner)
  also have "\<dots> = take (nat (j - i)) (drop (nat i) xs)"
  proof -
    have a: "nat (i - b) + nat b = nat i" using assms by simp
    have c: "min (nat (j - i)) (nat (e - b) - nat (i - b)) = nat (j - i)" using assms by simp
    show ?thesis by (simp only: drop_take drop_drop take_take a c)
  qed
  finally show ?thesis using assms by (simp add: py_slice_inner)
qed

lemma py_index_py_slice:
  assumes "0 \<le> b" "b \<le> k" "k < e" "e \<le> int (length xs)"
  shows "py_index (py_slice xs b e) (k - b) = Inr (xs ! nat k)"
proof -
  have len: "int (length (py_slice xs b e)) = e - b"
    using assms by (simp add: length_py_slice_inner)
  have a: "nat b + nat (k - b) = nat k" using assms by simp
  have "py_slice xs b e ! nat (k - b) = xs ! nat k"
    using assms by (simp add: py_slice_inner a)
  then show ?thesis using assms len by (simp add: py_index_def Let_def)
qed

lemma py_index_beyond: "int (length xs) \<le> k \<Longrightarrow> py_index xs k = Inl IndexError"
  by (simp add: py_index_def Let_def)

section \<open>The cursor with a fixed window size keeps the contract\<close>

lemma memory_cursor_simps:
  "is_valid memory_cursor = mc_is_valid"
  "is_associated memory_cursor = mc_is_associated"
  "includes_ofs memory_cursor = mc_includes_ofs"
  "ofs_begin memory_cursor = mc_ofs_begin"
  "ofs_end memory_cursor = mc_ofs_end"
  "buffer memory_cursor = mc_buffer"
  "use_region memory_cursor = mc_use_region"
  "unuse_region memory_cursor = mc_unuse_region"
  by (simp_all add: memory_cursor_def)

lemma mc_inv_use_region: "mc_inv res c \<Longrightarrow> mc_inv res (mc_use_region c ofs l fl)"
  by (auto simp: mc_inv_def mc_use_region_def)

lemma mc_inv_unuse_region: "mc_inv res c \<Longrightarrow> mc_inv res (mc_unuse_region c)"
  by (simp add: mc_inv_def mc_unuse_region_def)

lemma mc_inv_window:
  assumes "mc_inv res c"
  shows "0 \<le> mc_ofs_begin c" "mc_ofs_begin c \<le> mc_ofs_end c"
    "mc_ofs_end c \<le> int (length res)"
    "mc_buffer c = py_slice res (mc_ofs_begin c) (mc_ofs_end c)"
    "mc_includes_ofs c k = (mc_ofs_begin c \<le> k \<and> k < mc_ofs_end c)"
  using assms
  by (auto simp: mc_inv_def mc_ofs_begin_def mc_ofs_end_def mc_buffer_def mc_includes_ofs_def
      py_slice_same split: option.splits)

lemma mc_use_region_inside:
  assumes "mc_inv res c" "0 \<le> ofs" "ofs < int (length res)" "0 < l"
  shows "mc_is_valid (mc_use_region c ofs l 0)"
    "mc_ofs_begin (mc_use_region c ofs l 0) = ofs"
    "ofs < mc_ofs_end (mc_use_region c ofs l 0)"
  using assms
  by (auto simp: mc_inv_def mc_use_region_def mc_is_valid_def mc_ofs_begin_def mc_ofs_end_def)

lemma memory_cursor_contract: "cursor_contract memory_cursor res (mc_inv res)"
  unfolding cursor_contract_def memory_cursor_simps
  by (intro conjI allI impI; (elim conjE)?)
     (simp_all add: mc_inv_use_region mc_inv_unuse_region mc_inv_window mc_use_region_inside)

section \<open>The slow path reads the resource\<close>

lemma contract_use_region: "cursor_contract ops res I \<Longrightarrow> I c \<Longrightarrow> I (use_region ops c ofs l fl)"
  by (simp add: cursor_contract_def)

lemma contract_window:
  assumes "cursor_contract ops res I" "I c"
  shows "0 \<le> ofs_begin ops c" "ofs_begin ops c \<le> ofs_end ops c"
    "ofs_end ops c \<le> int (length res)"
    "buffer ops c = py_slice res (ofs_begin ops c) (ofs_end ops c)"
    "includes_ofs ops c k = (ofs_begin ops c \<le> k \<and> k < ofs_end ops c)"
  using assms unfolding cursor_contract_def by blast+

lemma contract_relocate:
  assumes "cursor_contract ops res I" "I c" "0 \<le> ofs" "ofs < int (length res)" "0 < l"
  shows "is_valid ops (use_region ops c ofs l 0)"
    "ofs_begin ops (use_region ops c ofs l 0) = ofs"
    "ofs < ofs_end ops (use_region ops c ofs l 0)"
  using assms unfolding cursor_contract_def by blast+

lemma py_slice_take: "0 \<le> l \<Longrightarrow> py_slice ys 0 l = take (nat l) ys"
  by (simp add: py_slice_def Let_def min_def)

lemma py_slice_prefix:
  assumes "0 \<le> ofs" "ofs \<le> e" "e \<le> int (length res)" "0 \<le> l"
  shows "py_slice (py_slice res ofs e) 0 l = py_slice res ofs (min e (ofs + l))"
proof -
  have m: "min (nat l) (nat (e - ofs)) = nat (min e (ofs + l) - ofs)"
    using assms by (auto simp: min_def)
  have "py_slice (py_slice res ofs e) 0 l = take (nat l) (py_slice res ofs e)"
    using assms by (simp only: py_slice_take)
  also have "\<dots> = take (nat l) (take (nat (e - ofs)) (drop (nat ofs) res))"
    using assms by (simp only: py_slice_inner)
  also have "\<dots> = take (nat (min e (ofs + l) - ofs)) (drop (nat ofs) res)"
    by (simp only: take_take m)
  also have "\<dots> = py_slice res ofs (min e (ofs + l))"
    using assms by (simp add: py_slice_inner)
  finally show ?thesis .
qed

lemma getslice_loop_reads:
  assumes ct: "cursor_contract ops res I"
  shows "I c \<Longrightarrow> 0 \<le> ofs \<Longrightarrow> 0 \<le> l \<Longrightarrow> ofs + l \<le> int (length res) \<Longrightarrow>
      \<exists>c'. I c' \<and> getslice_loop ops c ofs l md = Some (c', md @ py_slice res ofs (ofs + l))"
proof (induction "nat l" arbitrary: c ofs l md rule: less_induct)
  case less
  show ?case
  proof (cases "l = 0")
    case True
    with less.prems show ?thesis
      by (subst getslice_loop.simps) (simp add: py_slice_same)
  next
    case False
    define c1 where "c1 = use_region ops c ofs l 0"
    define k where "k = min (ofs_end ops c1) (ofs + l)"
    define d where "d = py_slice (buffer ops c1) 0 l"
    from False less.prems have lpos: "0 < l" and inside: "ofs < int (length res)" by simp_all
    have I1: "I c1" unfolding c1_def by (rule contract_use_region [OF ct less.prems(1)])
    have b1: "ofs_begin ops c1 = ofs" and e1: "ofs < ofs_end ops c1"
      unfolding c1_def using contract_relocate [OF ct less.prems(1,2) inside lpos] by simp_all
    have eN: "ofs_end ops c1 \<le> int (length res)"
      and buf: "buffer ops c1 = py_slice res ofs (ofs_end ops c1)"
      using contract_window [OF ct I1] b1 by simp_all
    have d: "d = py_slice res ofs k"
      unfolding d_def k_def buf using less.prems e1 eN lpos by (simp add: py_slice_prefix)
    have kb: "ofs < k" "k \<le> ofs + l" "k \<le> int (length res)"
      using e1 lpos eN by (simp_all add: k_def)
    have lend: "int (length d) = k - ofs"
      unfolding d using less.prems kb by (simp add: length_py_slice_inner)
    have a1: "ofs + int (length d) = k" and a2: "l - int (length d) = ofs + l - k"
      using lend by simp_all
    have "getslice_loop ops c ofs l md
          = getslice_loop ops c1 (ofs + int (length d)) (l - int (length d)) (md @ d)"
      using False
      by (subst getslice_loop.simps) (simp add: Let_def c1_def [symmetric] d_def [symmetric])
    then have step: "getslice_loop ops c ofs l md = getslice_loop ops c1 k (ofs + l - k) (md @ d)"
      by (simp only: a1 a2)
    have r: "nat (ofs + l - k) < nat l" using kb lpos by simp
    have "\<exists>c'. I c' \<and> getslice_loop ops c1 k (ofs + l - k) (md @ d)
            = Some (c', (md @ d) @ py_slice res k (k + (ofs + l - k)))"
      using kb less.prems by (intro less.hyps [OF r I1]) simp_all
    then obtain c' where c': "I c'"
      "getslice_loop ops c1 k (ofs + l - k) (md @ d) = Some (c', (md @ d) @ py_slice res k (ofs + l))"
      by auto
    have "d @ py_slice res k (ofs + l) = py_slice res ofs (ofs + l)"
      unfolding d using less.prems kb by (simp add: py_slice_append)
    with c' step show ?thesis by auto
  qed
qed

section \<open>Reads on a buffer that is not bound\<close>

lemma example_simps:
  "mc_is_valid cur_bound" "\<not> mc_is_valid cur_released" "\<not> mc_is_valid cur_unassociated"
  "mc_is_associated cur_bound" "mc_is_associated cur_released"
  "\<not> mc_is_associated cur_unassociated"
  "heap_of c r = c"
  by (simp_all add: mc_is_valid_def mc_is_associated_def cur_bound_def cur_released_def
      cur_unassociated_def heap_of_def)

lemma mc_inv_cur_bound: "mc_inv file6 cur_bound"
  by (simp add: mc_inv_def cur_bound_def file6_def)

text \<open>
  C5. A read on a buffer without a cursor, or with a cursor that reports invalid, fails:
  \<^verbatim>\<open>at(i)\<close> and \<^verbatim>\<open>slice(i, j)\<close> raise \<^verbatim>\<open>AttributeError\<close> when the slot is
  \<^verbatim>\<open>None\<close> and \<^verbatim>\<open>AssertionError\<close> when \<^verbatim>\<open>is_valid()\<close> is false, before any
  byte is read and with the store and the buffer unchanged. In particular a buffer
  constructed without a cursor fails on \<^verbatim>\<open>at(0)\<close>.
\<close>

theorem unbound_read_fails:
  "(buf_c (snd s) = None \<longrightarrow>
      getitem ops s i = (s, Inl AttributeError) \<and>
      getslice ops s i j = Some (s, Inl AttributeError)) \<and>
   (buf_c (snd s) = Some r \<and> \<not> is_valid ops (fst s r) \<longrightarrow>
      getitem ops s i = (s, Inl AssertionError) \<and>
      getslice ops s i j = Some (s, Inl AssertionError)) \<and>
   getitem ops (fst (init ops h None offset sz flags)) 0
     = (fst (init ops h None offset sz flags), Inl AttributeError)"
  by (simp add: getitem_def getslice_def init_def)

theorem unbound_read_fails_witness:
  "getitem memory_cursor (heap_of cur_bound, \<lparr>buf_c = None\<rparr>) 3
     = ((heap_of cur_bound, \<lparr>buf_c = None\<rparr>), Inl AttributeError) \<and>
   getslice memory_cursor (heap_of cur_bound, \<lparr>buf_c = None\<rparr>) 3 5
     = Some ((heap_of cur_bound, \<lparr>buf_c = None\<rparr>), Inl AttributeError) \<and>
   getitem memory_cursor (heap_of cur_released, \<lparr>buf_c = Some 0\<rparr>) 3
     = ((heap_of cur_released, \<lparr>buf_c = Some 0\<rparr>), Inl AssertionError) \<and>
   getslice memory_cursor (heap_of cur_released, \<lparr>buf_c = Some 0\<rparr>) 3 5
     = Some ((heap_of cur_released, \<lparr>buf_c = Some 0\<rparr>), Inl AssertionError)"
  using unbound_read_fails [where s = "(heap_of cur_bound, \<lparr>buf_c = None\<rparr>)"
      and ops = memory_cursor and i = 3 and j = 5]
    unbound_read_fails [where s = "(heap_of cur_released, \<lparr>buf_c = Some 0\<rparr>)"
      and ops = memory_cursor and r = 0 and i = 3 and j = 5]
  by (simp add: memory_cursor_simps example_simps)

section \<open>Binding, and the empty range\<close>

lemma getslice_loop_zero: "getslice_loop ops c ofs 0 md = Some (c, md)"
  by (subst getslice_loop.simps) simp

lemma rebind_released:
  "mc_use_region cur_released 2 3 0 = cur_released\<lparr>window := Some (2, 5)\<rparr>"
  "mc_is_valid (cur_released\<lparr>window := Some (2, 5)\<rparr>)"
  by (simp_all add: mc_use_region_def mc_is_valid_def cur_released_def file6_def)

text \<open>
  C7. \<^verbatim>\<open>begin_access\<close> works on the effective cursor: the one supplied or, when none is
  supplied, the stored one. With no effective cursor, or with one that is not
  associated, it returns \<^verbatim>\<open>False\<close> and leaves the store untouched (no relocation is
  requested). With an associated cursor it calls \<^verbatim>\<open>use_region(offset, size, flags)\<close> on
  it and returns \<^verbatim>\<open>is_valid()\<close> of the result. The method has no failure branch.
\<close>

theorem begin_access_binds:
  assumes "eff = (case cur of Some r \<Rightarrow> Some r | None \<Rightarrow> buf_c (snd s))"
  shows
    "(eff = None \<longrightarrow> begin_access ops s cur offset sz flags = (s, False)) \<and>
     (eff = Some r \<and> \<not> is_associated ops (fst s r) \<longrightarrow>
        begin_access ops s cur offset sz flags = ((fst s, (snd s)\<lparr>buf_c := Some r\<rparr>), False)) \<and>
     (eff = Some r \<and> is_associated ops (fst s r) \<longrightarrow>
        begin_access ops s cur offset sz flags =
          (((fst s)(r := use_region ops (fst s r) offset sz flags), (snd s)\<lparr>buf_c := Some r\<rparr>),
           is_valid ops (use_region ops (fst s r) offset sz flags)))"
  using assms by (cases s) (auto simp: begin_access_def Let_def split: option.splits)

theorem begin_access_binds_witness:
  "begin_access memory_cursor (heap_of cur_released, \<lparr>buf_c = None\<rparr>) None 2 3 0
     = ((heap_of cur_released, \<lparr>buf_c = None\<rparr>), False) \<and>
   begin_access memory_cursor (heap_of cur_unassociated, \<lparr>buf_c = None\<rparr>) (Some 0) 2 3 0
     = ((heap_of cur_unassociated, \<lparr>buf_c = Some 0\<rparr>), False) \<and>
   begin_access memory_cursor (heap_of cur_released, \<lparr>buf_c = Some 0\<rparr>) None 2 3 0
     = (((heap_of cur_released)(0 := cur_released\<lparr>window := Some (2, 5)\<rparr>), \<lparr>buf_c = Some 0\<rparr>),
        True)"
  using
    begin_access_binds [where s = "(heap_of cur_released, \<lparr>buf_c = None\<rparr>)" and cur = None
      and eff = None and ops = memory_cursor and offset = 2 and sz = 3 and flags = 0]
    begin_access_binds [where s = "(heap_of cur_unassociated, \<lparr>buf_c = None\<rparr>)"
      and cur = "Some 0" and eff = "Some 0" and r = 0 and ops = memory_cursor and offset = 2
      and sz = 3 and flags = 0]
    begin_access_binds [where s = "(heap_of cur_released, \<lparr>buf_c = Some 0\<rparr>)" and cur = None
      and eff = "Some 0" and r = 0 and ops = memory_cursor and offset = 2 and sz = 3
      and flags = 0]
  by (simp add: memory_cursor_simps example_simps rebind_released)

text \<open>
  C9. On a bound buffer with a valid cursor, \<^verbatim>\<open>slice(i, i)\<close> returns the empty string and
  leaves the store as it was (no relocation), wherever \<open>i\<close> lies: inside the window,
  outside it, or past the end of the resource.
\<close>

theorem empty_slice:
  assumes "buf_c (snd s) = Some r" "is_valid ops (fst s r)"
  shows "getslice ops s i i = Some (s, Inr [])"
  using assms by (simp add: getslice_def Let_def py_slice_same getslice_loop_zero)

theorem empty_slice_witness:
  "getslice memory_cursor (heap_of cur_bound, \<lparr>buf_c = Some 0\<rparr>) 9 9
     = Some ((heap_of cur_bound, \<lparr>buf_c = Some 0\<rparr>), Inr [])"
  using empty_slice [where s = "(heap_of cur_bound, \<lparr>buf_c = Some 0\<rparr>)" and r = 0
      and ops = memory_cursor and i = 9]
  by (simp add: memory_cursor_simps example_simps)

section \<open>The stored cursor\<close>

lemma getslice_cursor:
  "getslice ops s i j = Some (s', x) \<Longrightarrow> buf_c (snd s') = buf_c (snd s)"
  by (auto simp: getslice_def Let_def split: option.splits if_splits prod.splits)

text \<open>
  C10. The slot \<^verbatim>\<open>_c\<close> is written only by the constructor and by \<^verbatim>\<open>begin_access\<close> with
  a cursor argument. \<^verbatim>\<open>at\<close>, \<^verbatim>\<open>slice\<close> (when it returns), \<^verbatim>\<open>end_access\<close>,
  \<^verbatim>\<open>__del__\<close> and \<^verbatim>\<open>begin_access\<close> without a cursor leave \<^verbatim>\<open>cursor()\<close> as it was;
  \<^verbatim>\<open>begin_access\<close> without a cursor behaves as \<^verbatim>\<open>begin_access\<close> with the stored one,
  also after \<^verbatim>\<open>end_access\<close>, so the buffer can be bound again through it.
\<close>

theorem stored_cursor_frame:
  "cursor (fst (getitem ops s i)) = cursor s \<and>
   (getslice ops s i j = Some (s', x) \<longrightarrow> cursor s' = cursor s) \<and>
   cursor (end_access ops s) = cursor s \<and>
   cursor (del ops s) = cursor s \<and>
   cursor (fst (begin_access ops s None offset sz flags)) = cursor s \<and>
   begin_access ops s None offset sz flags = begin_access ops s (cursor s) offset sz flags \<and>
   begin_access ops (end_access ops s) None offset sz flags
     = begin_access ops (end_access ops s) (cursor s) offset sz flags"
proof -
  have 1: "cursor (fst (getitem ops s i)) = cursor s"
    by (simp add: cursor_def getitem_def Let_def split: option.splits)
  have 2: "getslice ops s i j = Some (s', x) \<longrightarrow> cursor s' = cursor s"
    by (simp add: cursor_def getslice_cursor)
  have 3: "cursor (end_access ops s) = cursor s" for s :: "'a state"
    by (simp add: cursor_def end_access_def split: option.splits)
  have 5: "begin_access ops s None offset sz flags = begin_access ops s (cursor s) offset sz flags"
    for s :: "'a state"
    by (cases s) (simp add: cursor_def begin_access_def Let_def split: option.splits)
  have 4: "cursor (fst (begin_access ops s None offset sz flags)) = cursor s"
    by (simp add: cursor_def begin_access_def Let_def split: option.splits)
  have 6: "begin_access ops (end_access ops s) None offset sz flags
     = begin_access ops (end_access ops s) (cursor s) offset sz flags"
    using 5 [of "end_access ops s"] by (simp only: 3)
  from 1 2 3 4 5 6 show ?thesis by (simp only: del_def simp_thms)
qed

theorem stored_cursor_frame_witness:
  "getslice memory_cursor (heap_of cur_bound, \<lparr>buf_c = Some 0\<rparr>) 1 3
     = Some ((heap_of cur_bound, \<lparr>buf_c = Some 0\<rparr>), Inr ''bc'') \<and>
   cursor (heap_of cur_bound, \<lparr>buf_c = Some 0\<rparr>) = Some 0"
proof -
  have g: "getslice memory_cursor (heap_of cur_bound, \<lparr>buf_c = Some 0\<rparr>) 1 3
     = Some ((heap_of cur_bound, \<lparr>buf_c = Some 0\<rparr>), Inr ''bc'')"
    by (simp add: getslice_def memory_cursor_simps example_simps Let_def)
       (simp add: cur_bound_def mc_ofs_begin_def mc_ofs_end_def mc_buffer_def file6_def
          py_slice_def)
  from stored_cursor_frame [where ops = memory_cursor
      and s = "(heap_of cur_bound, \<lparr>buf_c = Some 0\<rparr>)" and i = 1 and j = 3
      and s' = "(heap_of cur_bound, \<lparr>buf_c = Some 0\<rparr>)" and x = "Inr ''bc''"] g
  show ?thesis by (simp add: cursor_def)
qed

section \<open>Release and construction\<close>

text \<open>
  C8. \<^verbatim>\<open>end_access\<close> on a buffer without a cursor changes nothing. On a buffer with a
  cursor it calls the cursor's \<^verbatim>\<open>unuse_region\<close> and nothing else, so when releasing an
  already released cursor changes nothing (the cursor's release is safe to repeat), a
  second \<^verbatim>\<open>end_access\<close>, or \<^verbatim>\<open>__del__\<close> after \<^verbatim>\<open>end_access\<close>, changes nothing
  either. Neither method has a failure branch.
\<close>

theorem end_access_idempotent:
  "(cursor s = None \<longrightarrow> end_access ops s = s) \<and>
   ((cursor s = None \<or>
     (\<exists>r. cursor s = Some r \<and>
          unuse_region ops (unuse_region ops (fst s r)) = unuse_region ops (fst s r))) \<longrightarrow>
    end_access ops (end_access ops s) = end_access ops s \<and>
    del ops (end_access ops s) = end_access ops s)"
  by (cases s) (auto simp: cursor_def end_access_def del_def split: option.splits)

theorem end_access_idempotent_witness:
  "end_access memory_cursor (heap_of cur_bound, \<lparr>buf_c = None\<rparr>)
     = (heap_of cur_bound, \<lparr>buf_c = None\<rparr>) \<and>
   end_access memory_cursor (end_access memory_cursor (heap_of cur_bound, \<lparr>buf_c = Some 0\<rparr>))
     = ((heap_of cur_bound)(0 := cur_released), \<lparr>buf_c = Some 0\<rparr>) \<and>
   del memory_cursor (end_access memory_cursor (heap_of cur_bound, \<lparr>buf_c = Some 0\<rparr>))
     = ((heap_of cur_bound)(0 := cur_released), \<lparr>buf_c = Some 0\<rparr>)"
proof -
  have e: "end_access memory_cursor (heap_of cur_bound, \<lparr>buf_c = Some 0\<rparr>)
      = ((heap_of cur_bound)(0 := cur_released), \<lparr>buf_c = Some 0\<rparr>)"
    by (simp add: end_access_def memory_cursor_simps example_simps mc_unuse_region_def
        cur_bound_def cur_released_def)
  have u: "mc_unuse_region (mc_unuse_region cur_bound) = mc_unuse_region cur_bound"
    by (simp add: mc_unuse_region_def)
  from end_access_idempotent [where ops = memory_cursor
      and s = "(heap_of cur_bound, \<lparr>buf_c = None\<rparr>)"]
    end_access_idempotent [where ops = memory_cursor
      and s = "(heap_of cur_bound, \<lparr>buf_c = Some 0\<rparr>)"] u e
  show ?thesis by (simp add: cursor_def memory_cursor_simps example_simps)
qed

text \<open>
  C6. Without a cursor the constructor succeeds and binds nothing. With a cursor it
  sets the slot and calls \<^verbatim>\<open>begin_access\<close>; it raises \<^verbatim>\<open>ValueError\<close> exactly when
  \<^verbatim>\<open>begin_access\<close> returns \<^verbatim>\<open>False\<close>. After such a failure the slot still holds the
  cursor, so that \<^verbatim>\<open>__del__\<close> releases it, and the cursor holds no window, provided
  that a cursor which is not associated has none.
\<close>

theorem init_binds_or_raises:
  "init ops h None offset sz flags = ((h, \<lparr>buf_c = None\<rparr>), Inr ()) \<and>
   fst (init ops h (Some r) offset sz flags)
     = fst (begin_access ops (h, \<lparr>buf_c = Some r\<rparr>) (Some r) offset sz flags) \<and>
   (snd (init ops h (Some r) offset sz flags) = Inl ValueError \<longleftrightarrow>
      \<not> snd (begin_access ops (h, \<lparr>buf_c = Some r\<rparr>) (Some r) offset sz flags)) \<and>
   (snd (init ops h (Some r) offset sz flags) \<noteq> Inl ValueError \<longrightarrow>
      snd (init ops h (Some r) offset sz flags) = Inr ()) \<and>
   (snd (init ops h (Some r) offset sz flags) = Inl ValueError \<and>
    (is_valid ops (h r) \<longrightarrow> is_associated ops (h r)) \<longrightarrow>
      cursor (fst (init ops h (Some r) offset sz flags)) = Some r \<and>
      \<not> is_valid ops (fst (fst (init ops h (Some r) offset sz flags)) r) \<and>
      del ops (fst (init ops h (Some r) offset sz flags))
        = ((fst (fst (init ops h (Some r) offset sz flags)))
             (r := unuse_region ops (fst (fst (init ops h (Some r) offset sz flags)) r)),
           \<lparr>buf_c = Some r\<rparr>))"
  by (auto simp: init_def begin_access_def Let_def cursor_def del_def end_access_def
      split: prod.splits if_splits)

lemma init_examples:
  "init memory_cursor (heap_of cur_bound) (Some 0) 9 2 0
     = (((heap_of cur_bound)(0 := cur_released), \<lparr>buf_c = Some 0\<rparr>), Inl ValueError)"
  "init memory_cursor (heap_of cur_unassociated) (Some 0) 0 2 0
     = ((heap_of cur_unassociated, \<lparr>buf_c = Some 0\<rparr>), Inl ValueError)"
  "init memory_cursor (heap_of cur_released) (Some 0) 2 3 0
     = (((heap_of cur_released)(0 := cur_released\<lparr>window := Some (2, 5)\<rparr>), \<lparr>buf_c = Some 0\<rparr>),
        Inr ())"
proof -
  have u: "mc_use_region cur_bound 9 2 0 = cur_released"
    by (simp add: mc_use_region_def cur_bound_def cur_released_def file6_def)
  show "init memory_cursor (heap_of cur_bound) (Some 0) 9 2 0
     = (((heap_of cur_bound)(0 := cur_released), \<lparr>buf_c = Some 0\<rparr>), Inl ValueError)"
    by (simp add: init_def begin_access_def Let_def memory_cursor_simps example_simps u)
  show "init memory_cursor (heap_of cur_unassociated) (Some 0) 0 2 0
     = ((heap_of cur_unassociated, \<lparr>buf_c = Some 0\<rparr>), Inl ValueError)"
    by (simp add: init_def begin_access_def Let_def memory_cursor_simps example_simps)
  show "init memory_cursor (heap_of cur_released) (Some 0) 2 3 0
     = (((heap_of cur_released)(0 := cur_released\<lparr>window := Some (2, 5)\<rparr>), \<lparr>buf_c = Some 0\<rparr>),
        Inr ())"
    by (simp add: init_def begin_access_def Let_def memory_cursor_simps example_simps
        rebind_released)
qed

theorem init_binds_or_raises_witness:
  "snd (init memory_cursor (heap_of cur_bound) (Some 0) 9 2 0) = Inl ValueError \<and>
   \<not> mc_is_valid (fst (fst (init memory_cursor (heap_of cur_bound) (Some 0) 9 2 0)) 0) \<and>
   cursor (fst (init memory_cursor (heap_of cur_bound) (Some 0) 9 2 0)) = Some 0 \<and>
   snd (init memory_cursor (heap_of cur_unassociated) (Some 0) 0 2 0) = Inl ValueError \<and>
   \<not> mc_is_valid (fst (fst (init memory_cursor (heap_of cur_unassociated) (Some 0) 0 2 0)) 0) \<and>
   snd (init memory_cursor (heap_of cur_released) (Some 0) 2 3 0) = Inr ()"
proof -
  note a = init_binds_or_raises [where ops = memory_cursor and h = "heap_of cur_bound"
      and r = 0 and offset = 9 and sz = 2 and flags = 0]
  note b = init_binds_or_raises [where ops = memory_cursor and h = "heap_of cur_unassociated"
      and r = 0 and offset = 0 and sz = 2 and flags = 0]
  note c = init_binds_or_raises [where ops = memory_cursor and h = "heap_of cur_released"
      and r = 0 and offset = 2 and sz = 3 and flags = 0]
  have va: "is_valid memory_cursor (heap_of cur_bound 0)
      \<longrightarrow> is_associated memory_cursor (heap_of cur_bound 0)"
    and vb: "is_valid memory_cursor (heap_of cur_unassociated 0)
      \<longrightarrow> is_associated memory_cursor (heap_of cur_unassociated 0)"
    by (simp_all add: memory_cursor_simps example_simps)
  have ea: "snd (init memory_cursor (heap_of cur_bound) (Some 0) 9 2 0) = Inl ValueError"
    and eb: "snd (init memory_cursor (heap_of cur_unassociated) (Some 0) 0 2 0) = Inl ValueError"
    and ec: "snd (init memory_cursor (heap_of cur_released) (Some 0) 2 3 0) \<noteq> Inl ValueError"
    by (simp_all add: init_examples)
  note a5 = a [THEN conjunct2, THEN conjunct2, THEN conjunct2, THEN conjunct2, rule_format,
      OF conjI [OF ea va]]
  note b5 = b [THEN conjunct2, THEN conjunct2, THEN conjunct2, THEN conjunct2, rule_format,
      OF conjI [OF eb vb]]
  note c4 = c [THEN conjunct2, THEN conjunct2, THEN conjunct2, THEN conjunct1, rule_format,
      OF ec]
  from a5 have "\<not> mc_is_valid (fst (fst (init memory_cursor (heap_of cur_bound) (Some 0) 9 2 0)) 0)"
    and "cursor (fst (init memory_cursor (heap_of cur_bound) (Some 0) 9 2 0)) = Some 0"
    unfolding memory_cursor_simps by blast+
  moreover from b5
  have "\<not> mc_is_valid (fst (fst (init memory_cursor (heap_of cur_unassociated) (Some 0) 0 2 0)) 0)"
    unfolding memory_cursor_simps by blast
  moreover note c4
  ultimately show ?thesis using ea eb by blast
qed

section \<open>Range reads inside the resource\<close>

lemma py_slice_nth:
  assumes "0 \<le> i" "i \<le> k" "k < j" "j \<le> int (length xs)"
  shows "py_slice xs i j ! nat (k - i) = xs ! nat k"
proof -
  have a: "nat i + nat (k - i) = nat k" using assms by simp
  show ?thesis using assms by (simp add: py_slice_inner a)
qed

lemma getslice_reads:
  assumes ct: "cursor_contract ops res I"
    and bound: "buf_c (snd s) = Some r" and inv: "I (fst s r)" and valid: "is_valid ops (fst s r)"
    and range: "0 \<le> i" "i \<le> j" "j \<le> int (length res)"
  shows "\<exists>c'. I c' \<and>
           getslice ops s i j = Some (((fst s)(r := c'), snd s), Inr (py_slice res i j))"
proof (cases "ofs_begin ops (fst s r) \<le> i \<and> j < ofs_end ops (fst s r)")
  case True
  note w = contract_window [OF ct inv]
  have "py_slice (buffer ops (fst s r)) (i - ofs_begin ops (fst s r)) (j - ofs_begin ops (fst s r))
        = py_slice res i j"
    using True range w(1,3) by (simp only: w(4)) (simp add: py_slice_py_slice)
  then have "getslice ops s i j = Some (((fst s)(r := fst s r), snd s), Inr (py_slice res i j))"
    using True bound valid by (simp add: getslice_def Let_def)
  with inv show ?thesis by blast
next
  case False
  from getslice_loop_reads [OF ct inv range(1), of "j - i" "[]"] range
  obtain c' where c': "I c'" "getslice_loop ops (fst s r) i (j - i) [] = Some (c', py_slice res i j)"
    by auto
  have "getslice ops s i j = Some (((fst s)(r := c'), snd s), Inr (py_slice res i j))"
    using False bound valid c'(2) by (auto simp: getslice_def Let_def)
  with c'(1) show ?thesis by blast
qed

lemma getitem_in_window:
  assumes ct: "cursor_contract ops res I"
    and bound: "buf_c (snd s) = Some r" and inv: "I (fst s r)" and valid: "is_valid ops (fst s r)"
    and inside: "ofs_begin ops (fst s r) \<le> k" "k < ofs_end ops (fst s r)"
  shows "getitem ops s k = (s, Inr (res ! nat k))"
proof -
  note w = contract_window [OF ct inv]
  have inc: "includes_ofs ops (fst s r) k" using inside by (simp add: w(5))
  have "py_index (buffer ops (fst s r)) (k - ofs_begin ops (fst s r)) = Inr (res ! nat k)"
    using inside w(1,3) by (simp only: w(4)) (simp add: py_index_py_slice)
  then show ?thesis using bound valid inc by (simp add: getitem_def Let_def)
qed

text \<open>
  C2. Over a cursor that keeps the contract on a resource \<open>res\<close> of \<open>N\<close> bytes, on a
  bound buffer with a valid cursor, every request \<^verbatim>\<open>slice(i, j)\<close> with
  \<open>0 \<le> i \<le> j \<le> N\<close> returns, whatever the size of the windows: the result is
  \<^verbatim>\<open>res[i:j]\<close>, the \<open>j - i\<close> bytes of the resource from \<open>i\<close> on, and only the buffer's
  cursor has changed in the store.
\<close>

theorem slice_reads_resource:
  assumes "cursor_contract ops res I"
    and "buf_c (snd s) = Some r" and "I (fst s r)" and "is_valid ops (fst s r)"
    and "0 \<le> i" "i \<le> j" "j \<le> int (length res)"
  shows "\<exists>c'. I c' \<and>
           getslice ops s i j = Some (((fst s)(r := c'), snd s), Inr (py_slice res i j)) \<and>
           py_slice res i j = take (nat (j - i)) (drop (nat i) res) \<and>
           int (length (py_slice res i j)) = j - i"
  using getslice_reads [OF assms] assms(5-7)
  by (simp add: py_slice_inner length_py_slice_inner)

theorem slice_reads_resource_witness:
  "\<exists>c'. getslice memory_cursor (heap_of cur_bound, \<lparr>buf_c = Some 0\<rparr>) 0 6
          = Some (((heap_of cur_bound)(0 := c'), \<lparr>buf_c = Some 0\<rparr>), Inr ''abcdef'')"
proof -
  have p: "py_slice file6 0 6 = ''abcdef''"
    by (simp add: py_slice_def file6_def)
  from slice_reads_resource [where ops = memory_cursor and res = file6 and I = "mc_inv file6"
      and s = "(heap_of cur_bound, \<lparr>buf_c = Some 0\<rparr>)" and r = 0 and i = 0 and j = 6,
      OF memory_cursor_contract]
  show ?thesis
    by (simp add: memory_cursor_simps example_simps mc_inv_cur_bound p) (auto simp: file6_def)
qed

section \<open>Range reads and single reads agree\<close>

text \<open>
  C4. Over a cursor that keeps the contract, on a bound buffer with a valid cursor, let
  \<open>[i, j)\<close> with \<open>i \<le> j\<close> lie inside the current window. Then \<^verbatim>\<open>slice(i, j)\<close> returns
  \<open>j - i\<close> bytes, and for every position \<open>k\<close> of the range \<^verbatim>\<open>at(k)\<close> returns the byte of
  that result at \<open>k - i\<close> and leaves the store as it was, so that reading the positions
  one after the other gives the bytes of the slice.
\<close>

theorem slice_equals_bytewise:
  assumes "cursor_contract ops res I"
    and "buf_c (snd s) = Some r" and "I (fst s r)" and "is_valid ops (fst s r)"
    and "ofs_begin ops (fst s r) \<le> i" "i \<le> j" "j \<le> ofs_end ops (fst s r)"
  shows "\<exists>s' bs. getslice ops s i j = Some (s', Inr bs) \<and> int (length bs) = j - i \<and>
           (\<forall>k. i \<le> k \<and> k < j \<longrightarrow> getitem ops s k = (s, Inr (bs ! nat (k - i))))"
proof -
  note w = contract_window [OF assms(1,3)]
  have range: "0 \<le> i" "i \<le> j" "j \<le> int (length res)"
    using assms(5-7) w(1,3) by simp_all
  from getslice_reads [OF assms(1-4) range]
  obtain c' where g: "getslice ops s i j = Some (((fst s)(r := c'), snd s), Inr (py_slice res i j))"
    by blast
  have len: "int (length (py_slice res i j)) = j - i"
    using range by (simp add: length_py_slice_inner)
  have "getitem ops s k = (s, Inr (py_slice res i j ! nat (k - i)))" if "i \<le> k" "k < j" for k
  proof -
    have "getitem ops s k = (s, Inr (res ! nat k))"
      using that assms(5,7) by (intro getitem_in_window [OF assms(1-4)]) simp_all
    then show ?thesis using that range by (simp add: py_slice_nth)
  qed
  with g len show ?thesis by blast
qed

theorem slice_equals_bytewise_witness:
  "\<exists>s' bs. getslice memory_cursor (heap_of cur_bound, \<lparr>buf_c = Some 0\<rparr>) 1 4 = Some (s', Inr bs) \<and>
     int (length bs) = 3 \<and>
     getitem memory_cursor (heap_of cur_bound, \<lparr>buf_c = Some 0\<rparr>) 1
       = ((heap_of cur_bound, \<lparr>buf_c = Some 0\<rparr>), Inr (bs ! 0)) \<and>
     getitem memory_cursor (heap_of cur_bound, \<lparr>buf_c = Some 0\<rparr>) 2
       = ((heap_of cur_bound, \<lparr>buf_c = Some 0\<rparr>), Inr (bs ! 1)) \<and>
     getitem memory_cursor (heap_of cur_bound, \<lparr>buf_c = Some 0\<rparr>) 3
       = ((heap_of cur_bound, \<lparr>buf_c = Some 0\<rparr>), Inr (bs ! 2))"
proof -
  have b: "mc_ofs_begin cur_bound \<le> 1" "4 \<le> mc_ofs_end cur_bound"
    by (simp_all add: mc_ofs_begin_def mc_ofs_end_def cur_bound_def)
  from slice_equals_bytewise [where ops = memory_cursor and res = file6 and I = "mc_inv file6"
      and s = "(heap_of cur_bound, \<lparr>buf_c = Some 0\<rparr>)" and r = 0 and i = 1 and j = 4,
      OF memory_cursor_contract] b
  obtain s' bs where
    g: "getslice memory_cursor (heap_of cur_bound, \<lparr>buf_c = Some 0\<rparr>) 1 4 = Some (s', Inr bs)"
    and l: "int (length bs) = 3"
    and k: "\<And>k. 1 \<le> k \<Longrightarrow> k < 4 \<Longrightarrow>
       getitem memory_cursor (heap_of cur_bound, \<lparr>buf_c = Some 0\<rparr>) k
         = ((heap_of cur_bound, \<lparr>buf_c = Some 0\<rparr>), Inr (bs ! nat (k - 1)))"
    by (auto simp: memory_cursor_simps example_simps mc_inv_cur_bound)
  from k [of 1] k [of 2] k [of 3] g l show ?thesis by auto
qed

section \<open>The slow path: what it returns, and when it does not return\<close>

lemma getslice_loop_length:
  assumes "getslice_loop ops c ofs l md = Some y"
  shows "0 \<le> l \<longrightarrow> int (length (snd y)) = int (length md) + l"
proof (rule getslice_loop.raw_induct
    [where P = "\<lambda>ops c ofs l md y. 0 \<le> l \<longrightarrow> int (length (snd y)) = int (length md) + l",
      OF _ assms])
  fix f :: "'a cursor_ops \<Rightarrow> 'a \<Rightarrow> int \<Rightarrow> int \<Rightarrow> string \<Rightarrow> ('a \<times> string) option"
    and ops c ofs l md y
  assume ih: "\<And>ops c ofs l md y. f ops c ofs l md = Some y \<Longrightarrow>
      0 \<le> l \<longrightarrow> int (length (snd y)) = int (length md) + l"
    and body: "(if l \<noteq> 0
      then let c1 = use_region ops c ofs l 0; d = py_slice (buffer ops c1) 0 l
           in f ops c1 (ofs + int (length d)) (l - int (length d)) (md @ d)
      else Some (c, md)) = Some y"
  show "0 \<le> l \<longrightarrow> int (length (snd y)) = int (length md) + l"
  proof (cases "l = 0")
    case True
    with body show ?thesis by auto
  next
    case False
    define d where "d = py_slice (buffer ops (use_region ops c ofs l 0)) 0 l"
    from False body
    have "f ops (use_region ops c ofs l 0) (ofs + int (length d)) (l - int (length d)) (md @ d)
          = Some y"
      by (simp add: Let_def d_def)
    from ih [OF this]
    have h: "0 \<le> l - int (length d) \<longrightarrow>
        int (length (snd y)) = int (length (md @ d)) + (l - int (length d))" .
    show ?thesis
    proof
      assume "0 \<le> l"
      then have "int (length d) \<le> l" unfolding d_def by (rule length_py_slice_prefix)
      with h show "int (length (snd y)) = int (length md) + l" by simp
    qed
  qed
qed

lemma getslice_loop_stuck:
  assumes step: "\<And>c. S c \<Longrightarrow> S (use_region ops c ofs l 0) \<and>
                   py_slice (buffer ops (use_region ops c ofs l 0)) 0 l = []"
    and l: "l \<noteq> 0" and c: "S c"
  shows "getslice_loop ops c ofs l md = None"
proof (cases "getslice_loop ops c ofs l md")
  case None
  then show ?thesis .
next
  case (Some y)
  have "\<not> (ops = ops \<and> ofs = ofs \<and> l = l \<and> S c)"
  proof (rule getslice_loop.raw_induct
      [where P = "\<lambda>ops' c' ofs' l' md' y. \<not> (ops' = ops \<and> ofs' = ofs \<and> l' = l \<and> S c')",
        OF _ Some])
    fix f :: "'a cursor_ops \<Rightarrow> 'a \<Rightarrow> int \<Rightarrow> int \<Rightarrow> string \<Rightarrow> ('a \<times> string) option"
      and ops' c' ofs' l' md' y
    assume ih: "\<And>ops' c' ofs' l' md' y. f ops' c' ofs' l' md' = Some y \<Longrightarrow>
        \<not> (ops' = ops \<and> ofs' = ofs \<and> l' = l \<and> S c')"
      and body: "(if l' \<noteq> 0
        then let c1 = use_region ops' c' ofs' l' 0; d = py_slice (buffer ops' c1) 0 l'
             in f ops' c1 (ofs' + int (length d)) (l' - int (length d)) (md' @ d)
        else Some (c', md')) = Some y"
    show "\<not> (ops' = ops \<and> ofs' = ofs \<and> l' = l \<and> S c')"
    proof
      assume a: "ops' = ops \<and> ofs' = ofs \<and> l' = l \<and> S c'"
      with step [of c'] have s1: "S (use_region ops c' ofs l 0)"
        and d: "py_slice (buffer ops (use_region ops c' ofs l 0)) 0 l = []"
        by simp_all
      from body a l d have "f ops (use_region ops c' ofs l 0) ofs l md' = Some y"
        by (simp add: Let_def)
      from ih [OF this] s1 show False by simp
    qed
  qed
  with c show ?thesis by simp
qed

section \<open>Reads past the end of the resource\<close>

lemma getitem_past_end:
  assumes ct: "cursor_contract ops res I"
    and bound: "buf_c (snd s) = Some r" and inv: "I (fst s r)" and valid: "is_valid ops (fst s r)"
    and past: "int (length res) \<le> i"
  shows "snd (getitem ops s i) = Inl IndexError"
proof -
  define c1 where "c1 = (if \<not> includes_ofs ops (fst s r) i then use_region ops (fst s r) i 1 0
                         else fst s r)"
  have i1: "I c1" unfolding c1_def using inv contract_use_region [OF ct inv] by simp
  note w = contract_window [OF ct i1]
  have "int (length (buffer ops c1)) = ofs_end ops c1 - ofs_begin ops c1"
    using w(1-3) by (simp only: w(4)) (simp add: length_py_slice_inner)
  with w(3) past have "int (length (buffer ops c1)) \<le> i - ofs_begin ops c1" by simp
  then have "py_index (buffer ops c1) (i - ofs_begin ops c1) = Inl IndexError"
    by (rule py_index_beyond)
  then show ?thesis using bound valid by (simp add: getitem_def Let_def c1_def)
qed

lemma getslice_length:
  assumes ct: "cursor_contract ops res I"
    and bound: "buf_c (snd s) = Some r" and inv: "I (fst s r)" and valid: "is_valid ops (fst s r)"
    and ij: "i \<le> j" and ret: "getslice ops s i j = Some (s', x)"
  shows "\<exists>bs. x = Inr bs \<and> int (length bs) = j - i"
proof (cases "ofs_begin ops (fst s r) \<le> i \<and> j < ofs_end ops (fst s r)")
  case True
  note w = contract_window [OF ct inv]
  have "py_slice (buffer ops (fst s r)) (i - ofs_begin ops (fst s r)) (j - ofs_begin ops (fst s r))
        = py_slice res i j"
    using True ij w(1,3) by (simp only: w(4)) (simp add: py_slice_py_slice)
  moreover have "int (length (py_slice res i j)) = j - i"
    using True ij w(1,3) by (simp add: length_py_slice_inner)
  ultimately show ?thesis using True bound valid ret by (auto simp: getslice_def Let_def)
next
  case False
  with bound valid ret obtain c1 md
    where l: "getslice_loop ops (fst s r) i (j - i) [] = Some (c1, md)" and x: "x = Inr md"
    by (auto simp: getslice_def Let_def split: option.splits)
  from getslice_loop_length [OF l] ij have "int (length md) = j - i" by simp
  with x show ?thesis by simp
qed

text \<open>
  C1, as the code has it. Over a cursor that keeps the contract on a resource of \<open>N\<close>
  bytes, on a bound buffer with a valid cursor: \<^verbatim>\<open>at(i)\<close> with \<open>i \<ge> N\<close> raises
  \<^verbatim>\<open>IndexError\<close>; and \<^verbatim>\<open>slice(i, j)\<close> with \<open>i \<le> j\<close> never returns a shortened result:
  whenever it returns, it returns exactly \<open>j - i\<close> bytes. Whether a range read that
  runs past the end of the resource returns is not part of the statement.
\<close>

theorem read_past_end:
  assumes "cursor_contract ops res I"
    and "buf_c (snd s) = Some r" and "I (fst s r)" and "is_valid ops (fst s r)"
  shows "(int (length res) \<le> i \<longrightarrow> snd (getitem ops s i) = Inl IndexError) \<and>
         (i \<le> j \<and> getslice ops s i j = Some (s', x) \<longrightarrow>
            (\<exists>bs. x = Inr bs \<and> int (length bs) = j - i))"
  using getitem_past_end [OF assms] getslice_length [OF assms] by blast

theorem read_past_end_witness:
  "snd (getitem memory_cursor (heap_of cur_bound, \<lparr>buf_c = Some 0\<rparr>) 7) = Inl IndexError \<and>
   (\<exists>s'. getslice memory_cursor (heap_of cur_bound, \<lparr>buf_c = Some 0\<rparr>) 1 6
            = Some (s', Inr ''bcdef'') \<and> int (length ''bcdef'') = 6 - 1)"
proof -
  have p: "py_slice file6 1 6 = ''bcdef''"
    by (simp add: py_slice_def file6_def)
  have pre: "buf_c (snd (heap_of cur_bound, \<lparr>buf_c = Some 0\<rparr>)) = Some 0"
    "mc_inv file6 (fst (heap_of cur_bound, \<lparr>buf_c = Some 0\<rparr>) 0)"
    "is_valid memory_cursor (fst (heap_of cur_bound, \<lparr>buf_c = Some 0\<rparr>) 0)"
    "0 \<le> (1::int)" "(1::int) \<le> 6" "6 \<le> int (length file6)"
    by (simp_all add: memory_cursor_simps example_simps mc_inv_cur_bound)
      (simp add: file6_def)
  from getslice_reads [OF memory_cursor_contract pre]
  obtain c' where g: "getslice memory_cursor (heap_of cur_bound, \<lparr>buf_c = Some 0\<rparr>) 1 6
      = Some (((heap_of cur_bound)(0 := c'), \<lparr>buf_c = Some 0\<rparr>), Inr ''bcdef'')"
    by (auto simp: p)
  note t = read_past_end [where ops = memory_cursor and res = file6 and I = "mc_inv file6"
      and s = "(heap_of cur_bound, \<lparr>buf_c = Some 0\<rparr>)" and r = 0 and i = 7,
      OF memory_cursor_contract pre(1-3)]
  have "snd (getitem memory_cursor (heap_of cur_bound, \<lparr>buf_c = Some 0\<rparr>) 7) = Inl IndexError"
    using t [THEN conjunct1] by (simp add: file6_def)
  moreover have "int (length ''bcdef'') = 6 - 1"
    using read_past_end [where ops = memory_cursor and res = file6 and I = "mc_inv file6"
      and s = "(heap_of cur_bound, \<lparr>buf_c = Some 0\<rparr>)" and r = 0 and i = 1 and j = 6
      and s' = "((heap_of cur_bound)(0 := c'), \<lparr>buf_c = Some 0\<rparr>)" and x = "Inr ''bcdef''",
      OF memory_cursor_contract pre(1-3)] g
    by simp
  ultimately show ?thesis using g by blast
qed

section \<open>The range read past the end, and the end of the window\<close>

lemma fast_path_no_relocation:
  assumes "buf_c (snd s) = Some r" "is_valid ops (fst s r)"
    and "ofs_begin ops (fst s r) \<le> i" "j < ofs_end ops (fst s r)"
  shows "getslice ops s i j =
    Some (s, Inr (py_slice (buffer ops (fst s r)) (i - ofs_begin ops (fst s r))
                    (j - ofs_begin ops (fst s r))))"
  using assms by (simp add: getslice_def Let_def)

lemma use_region_past_end:
  "rsrc c = Some file6 \<Longrightarrow> mc_use_region c 6 l 0 = c\<lparr>window := None\<rparr>"
  by (simp add: mc_use_region_def file6_def)

lemma stuck_at_end:
  assumes "rsrc c = Some file6" "l \<noteq> 0"
  shows "getslice_loop memory_cursor c 6 l md = None"
proof (rule getslice_loop_stuck [where S = "\<lambda>c. rsrc c = Some file6", OF _ assms(2,1)])
  fix c :: MemoryCursor
  assume "rsrc c = Some file6"
  then show "rsrc (use_region memory_cursor c 6 l 0) = Some file6 \<and>
      py_slice (buffer memory_cursor (use_region memory_cursor c 6 l 0)) 0 l = []"
    by (simp add: memory_cursor_simps use_region_past_end mc_buffer_def py_slice_def)
qed

text \<open>
  C1 fails for range reads. The resource has six bytes and the window is \<open>[0, 4)\<close>.
  \<^verbatim>\<open>slice(5, 16)\<close> relocates to \<open>[5, 6)\<close> and reads one byte; the next relocation, at
  offset 6 with ten bytes still to read, yields no bytes, and so does every later one:
  the loop does not return, and no error is raised.
\<close>

theorem slice_past_end_counterexample:
  "mc_buffer (mc_use_region (mc_use_region cur_bound 5 11 0) 6 10 0) = [] \<and>
   getslice memory_cursor (heap_of cur_bound, \<lparr>buf_c = Some 0\<rparr>) 5 16 = None"
proof -
  have u: "mc_use_region cur_bound 5 11 0 = cur_bound\<lparr>window := Some (5, 6)\<rparr>"
    by (simp add: mc_use_region_def cur_bound_def file6_def)
  have r: "rsrc (cur_bound\<lparr>window := Some (5, 6)\<rparr>) = Some file6"
    by (simp add: cur_bound_def)
  have d: "py_slice (mc_buffer (cur_bound\<lparr>window := Some (5, 6)\<rparr>)) 0 11 = ''f''"
    by (simp add: mc_buffer_def cur_bound_def file6_def py_slice_def)
  have "getslice_loop memory_cursor cur_bound 5 11 []
        = getslice_loop memory_cursor (cur_bound\<lparr>window := Some (5, 6)\<rparr>) 6 10 ''f''"
    by (subst getslice_loop.simps) (simp add: memory_cursor_simps u d Let_def)
  also have "\<dots> = None" by (rule stuck_at_end [OF r]) simp
  finally have l: "getslice_loop memory_cursor cur_bound 5 11 [] = None" .
  have w: "mc_ofs_begin cur_bound = 0" "mc_ofs_end cur_bound = 4"
    by (simp_all add: mc_ofs_begin_def mc_ofs_end_def cur_bound_def)
  have "getslice memory_cursor (heap_of cur_bound, \<lparr>buf_c = Some 0\<rparr>) 5 16 = None"
    by (simp add: getslice_def Let_def memory_cursor_simps example_simps w l)
  moreover have "mc_buffer (mc_use_region (mc_use_region cur_bound 5 11 0) 6 10 0) = []"
    by (simp add: u use_region_past_end [OF r] mc_buffer_def split: option.splits)
  ultimately show ?thesis by simp
qed

text \<open>
  C3 at the end of the window. The window is \<open>[0, 4)\<close> and contains \<open>[1, 4)\<close>, but the
  test of the fast path is \<^verbatim>\<open>j < c.ofs_end()\<close>: \<^verbatim>\<open>slice(1, 4)\<close> takes the slow path,
  calls \<^verbatim>\<open>use_region(1, 3)\<close>, and the window is \<open>[1, 4)\<close> afterwards.
\<close>

theorem fast_path_misses_window_end:
  "mc_ofs_begin cur_bound \<le> 1 \<and> 4 \<le> mc_ofs_end cur_bound \<and>
   getslice memory_cursor (heap_of cur_bound, \<lparr>buf_c = Some 0\<rparr>) 1 4
     = Some (((heap_of cur_bound)(0 := mc_use_region cur_bound 1 3 0), \<lparr>buf_c = Some 0\<rparr>),
             Inr ''bcd'') \<and>
   window (mc_use_region cur_bound 1 3 0) = Some (1, 4) \<and>
   window cur_bound = Some (0, 4)"
proof -
  have u: "mc_use_region cur_bound 1 3 0 = cur_bound\<lparr>window := Some (1, 4)\<rparr>"
    by (simp add: mc_use_region_def cur_bound_def file6_def)
  have d: "py_slice (mc_buffer (cur_bound\<lparr>window := Some (1, 4)\<rparr>)) 0 3 = ''bcd''"
    by (simp add: mc_buffer_def cur_bound_def file6_def py_slice_def)
  have "getslice_loop memory_cursor cur_bound 1 3 []
        = getslice_loop memory_cursor (cur_bound\<lparr>window := Some (1, 4)\<rparr>) 4 0 ''bcd''"
    by (subst getslice_loop.simps) (simp add: memory_cursor_simps u d Let_def)
  then have l: "getslice_loop memory_cursor cur_bound 1 3 []
        = Some (cur_bound\<lparr>window := Some (1, 4)\<rparr>, ''bcd'')"
    by (simp add: getslice_loop_zero)
  have w: "mc_ofs_begin cur_bound = 0" "mc_ofs_end cur_bound = 4"
    by (simp_all add: mc_ofs_begin_def mc_ofs_end_def cur_bound_def)
  have "getslice memory_cursor (heap_of cur_bound, \<lparr>buf_c = Some 0\<rparr>) 1 4
     = Some (((heap_of cur_bound)(0 := mc_use_region cur_bound 1 3 0), \<lparr>buf_c = Some 0\<rparr>),
             Inr ''bcd'')"
    by (simp add: getslice_def Let_def memory_cursor_simps example_simps w l u)
  moreover have "window (mc_use_region cur_bound 1 3 0) = Some (1, 4)" by (simp add: u)
  moreover have "window cur_bound = Some (0, 4)" by (simp add: cur_bound_def)
  ultimately show ?thesis by (simp add: w)
qed

end
